theory Spec2Isabelle
  imports Complex_Main "HOL-Library.Char_ord" "HOL-Library.List_Lexorder" "HOL-Library.Multiset"
begin

section \<open>Python values used by the plan schema\<close>

text \<open>
  Segment filter values are dynamically typed in the source: six of the allowed-value
  lists of \<^verbatim>\<open>ALLOWED_SEGMENTS\<close> hold strings, the list for \<^verbatim>\<open>term\<close> holds integers, and
  the sentinel \<^verbatim>\<open>"ALL"\<close> is a string. A filter value is therefore a string or an integer.
  These strings, the messages and the keys are of type \<^typ>\<open>string\<close>; the SQL text, whose
  characters the validator inspects, is a list of code points (see \<open>sql_text\<close> below).
\<close>

datatype pyval = PStr string | PInt int

definition digit_char :: "nat \<Rightarrow> char" where
  "digit_char n = char_of (48 + n)"

fun str_of_nat :: "nat \<Rightarrow> string" where
  "str_of_nat n = (if n < 10 then [digit_char n] else str_of_nat (n div 10) @ [digit_char (n mod 10)])"

declare str_of_nat.simps [simp del]

definition str_of_int :: "int \<Rightarrow> string" where
  "str_of_int i = (if i < 0 then CHR ''-'' # str_of_nat (nat (- i)) else str_of_nat (nat i))"

text \<open>Python \<^verbatim>\<open>str(v)\<close>, as used by the f-strings of the error messages.\<close>

fun py_str :: "pyval \<Rightarrow> string" where
  "py_str (PStr s) = s"
| "py_str (PInt i) = str_of_int i"

text \<open>Python truthiness of an optional value: \<^verbatim>\<open>None\<close>, \<^verbatim>\<open>""\<close> and \<^verbatim>\<open>0\<close> are falsy.\<close>

fun truthy :: "pyval option \<Rightarrow> bool" where
  "truthy None = False"
| "truthy (Some (PStr s)) = (s \<noteq> [])"
| "truthy (Some (PInt i)) = (i \<noteq> 0)"

fun truthy_str :: "string option \<Rightarrow> bool" where
  "truthy_str None = False"
| "truthy_str (Some s) = (s \<noteq> [])"

text \<open>\<^verbatim>\<open>sep.join(xs)\<close>\<close>

fun join :: "string \<Rightarrow> string list \<Rightarrow> string" where
  "join sep [] = []"
| "join sep [x] = x"
| "join sep (x # y # ys) = x @ sep @ join sep (y # ys)"

definition sq :: string where
  "sq = [CHR 0x27]"

section \<open>The plan schema as the validator reads it\<close>

text \<open>
  Modelled from the spec: the declarations of \<^verbatim>\<open>SegmentFilters\<close> and \<^verbatim>\<open>Plan\<close> are in
  \<^verbatim>\<open>models/schemas.py\<close>, which is not among the sources. The spec gives a Plan an intent, a
  dataset, a metric, a date field, a window code, a granularity, segment filters and a chart
  hint; the field names are those of the constructor calls and attribute reads of the
  sources, and every segment filter is optional. The field \<^verbatim>\<open>term\<close> is named
  \<open>term_field\<close> here.
\<close>

record SegmentFilters =
  channel :: "pyval option"
  grade :: "pyval option"
  prod_type :: "pyval option"
  repeat_type :: "pyval option"
  term_field :: "pyval option"
  cr_fico_band :: "pyval option"
  purpose :: "pyval option"

record Plan =
  intent :: string
  table :: string
  metric :: string
  date_col :: string
  window :: string
  granularity :: string
  segments :: SegmentFilters
  chart :: string

section \<open>agents/guardrail.py\<close>

definition ALLOWED_SEGMENTS :: "(string \<times> pyval list) list" where
  "ALLOWED_SEGMENTS =
    [(''channel'', map PStr [''OMB'', ''Email'', ''Search'', ''D2LC'', ''DM'', ''LT'',
                             ''Experian'', ''Karma'', ''Small Partners'']),
     (''grade'', map PStr [''P1'', ''P2'', ''P3'', ''P4'', ''P5'', ''P6'']),
     (''prod_type'', map PStr [''Prime'', ''NP'', ''D2P'']),
     (''repeat_type'', map PStr [''Repeat'', ''New'']),
     (''term'', map PInt [36, 48, 60, 72, 84]),
     (''cr_fico_band'', map PStr [''<640'', ''640-699'', ''700-759'', ''760+'']),
     (''purpose'', map PStr [''debt_consolidation'', ''home_improvement'', ''major_purchase'',
                             ''medical'', ''car'', ''other''])]"

text \<open>\<^verbatim>\<open>ALLOWED_SEGMENTS[name]\<close>; every lookup of the source uses a key of the literal.\<close>

definition allowed :: "string \<Rightarrow> pyval list" where
  "allowed name = (case map_of ALLOWED_SEGMENTS name of Some vs \<Rightarrow> vs | None \<Rightarrow> [])"

definition DANGEROUS_KEYWORDS :: "string list" where
  "DANGEROUS_KEYWORDS = [''INSERT'', ''UPDATE'', ''DELETE'', ''DROP'', ''ALTER'',
                         ''CREATE'', ''TRUNCATE'', ''REPLACE'', ''MERGE'']"

definition MAX_TIME_WINDOW_DAYS :: int where
  "MAX_TIME_WINDOW_DAYS = 365"

record ValidationResult =
  is_valid :: bool
  error_message :: "string option"
  security_event :: bool

text \<open>The constructor with its defaults \<^verbatim>\<open>error_message=None, security_event=False\<close>.\<close>

definition valid_result :: ValidationResult where
  "valid_result = \<lparr>is_valid = True, error_message = None, security_event = False\<rparr>"

definition invalid_result :: "string \<Rightarrow> bool \<Rightarrow> ValidationResult" where
  "invalid_result msg sec = \<lparr>is_valid = False, error_message = Some msg, security_event = sec\<rparr>"

subsection \<open>Text primitives: \<^verbatim>\<open>str.upper\<close>, \<^verbatim>\<open>str.strip\<close>, \<^verbatim>\<open>re.search\<close> with word boundaries\<close>

text \<open>
  The SQL text is a Python \<^verbatim>\<open>str\<close>: a list of Unicode code points. \<open>code_points\<close> reads a literal
  of this theory (ASCII) as such a text.
\<close>

type_synonym sql_text = "nat list"

definition code_points :: "string \<Rightarrow> sql_text" where
  "code_points s = map of_char s"



text \<open>
  The upper case of one code point, which can be several code points: \<open>0xDF\<close> becomes
  \<^verbatim>\<open>SS\<close>, and \<open>U+01F0\<close> (j with caron) becomes \<^verbatim>\<open>J\<close> followed by the combining caron \<open>U+030C\<close>.
\<close>

definition upper_char :: "nat \<Rightarrow> nat list" where
  "upper_char c =
     (if 97 \<le> c \<and> c \<le> 122 then [c - 32]
      else if c = 0xB5 then [0x39C]
      else if c = 0xDF then [0x53, 0x53]
      else if 0xE0 \<le> c \<and> c \<le> 0xFE \<and> c \<noteq> 0xF7 then [c - 32]
      else if c = 0xFF then [0x178]
      else if c = 0x1F0 then [0x4A, 0x30C]
      else [c])"

definition upper :: "sql_text \<Rightarrow> sql_text" where
  "upper s = concat (map upper_char s)"

text \<open>
  The class \<^verbatim>\<open>\w\<close>: letters, digits and the underscore in ASCII, the 71 alphanumeric code
  points between \<open>0x80\<close> and \<open>0xFF\<close>, and the letters \<open>U+0178\<close>, \<open>U+039C\<close> and \<open>U+01F0\<close>; the
  combining caron \<open>U+030C\<close> is not in it.
\<close>

definition word_char :: "nat \<Rightarrow> bool" where
  "word_char c =
     ((48 \<le> c \<and> c \<le> 57) \<or> (65 \<le> c \<and> c \<le> 90) \<or> c = 95 \<or> (97 \<le> c \<and> c \<le> 122)
      \<or> c = 0xAA \<or> c = 0xB2 \<or> c = 0xB3 \<or> c = 0xB5 \<or> c = 0xB9 \<or> c = 0xBA
      \<or> c = 0xBC \<or> c = 0xBD \<or> c = 0xBE
      \<or> (0xC0 \<le> c \<and> c \<le> 0xD6) \<or> (0xD8 \<le> c \<and> c \<le> 0xF6) \<or> (0xF8 \<le> c \<and> c \<le> 0xFF)
      \<or> c = 0x178 \<or> c = 0x39C \<or> c = 0x1F0)"

text \<open>
  \<^verbatim>\<open>\b\<close> at position \<open>i\<close> of \<open>s\<close> (between \<open>s[i-1]\<close> and \<open>s[i]\<close>): exactly one of the two
  neighbours is a word character, a missing neighbour counting as none.
\<close>

definition word_before :: "sql_text \<Rightarrow> nat \<Rightarrow> bool" where
  "word_before s i = (0 < i \<and> i \<le> length s \<and> word_char (s ! (i - 1)))"

definition word_after :: "sql_text \<Rightarrow> nat \<Rightarrow> bool" where
  "word_after s i = (i < length s \<and> word_char (s ! i))"

definition word_boundary :: "sql_text \<Rightarrow> nat \<Rightarrow> bool" where
  "word_boundary s i = (word_before s i \<noteq> word_after s i)"

text \<open>The pattern \<^verbatim>\<open>r'\b' + keyword + r'\b'\<close> matched at position \<open>i\<close>; the keyword is literal text.\<close>

definition match_at :: "sql_text \<Rightarrow> sql_text \<Rightarrow> nat \<Rightarrow> bool" where
  "match_at kw s i =
     (word_boundary s i \<and> take (length kw) (drop i s) = kw \<and> word_boundary s (i + length kw))"

text \<open>\<^verbatim>\<open>re.search(pattern, s)\<close> is truthy when the pattern matches at some position.\<close>

definition re_search_word :: "sql_text \<Rightarrow> sql_text \<Rightarrow> bool" where
  "re_search_word kw s = list_ex (match_at kw s) [0..<Suc (length s)]"

text \<open>The code points that \<^verbatim>\<open>str.strip()\<close> removes (those with \<^verbatim>\<open>str.isspace()\<close>).\<close>

definition is_space :: "nat \<Rightarrow> bool" where
  "is_space c =
     ((9 \<le> c \<and> c \<le> 13) \<or> (28 \<le> c \<and> c \<le> 32) \<or> c = 0x85 \<or> c = 0xA0 \<or> c = 0x1680
      \<or> (0x2000 \<le> c \<and> c \<le> 0x200A) \<or> c = 0x2028 \<or> c = 0x2029 \<or> c = 0x202F
      \<or> c = 0x205F \<or> c = 0x3000)"

definition strip :: "sql_text \<Rightarrow> sql_text" where
  "strip s = rev (dropWhile is_space (rev (dropWhile is_space s)))"

subsection \<open>The four rules\<close>

fun check_keywords :: "string list \<Rightarrow> sql_text \<Rightarrow> ValidationResult" where
  "check_keywords [] sql_upper = valid_result"
| "check_keywords (keyword # rest) sql_upper =
     (if re_search_word (code_points keyword) sql_upper
      then invalid_result (''SQL query contains forbidden keyword: '' @ keyword) True
      else check_keywords rest sql_upper)"

definition check_sql_safety :: "sql_text \<Rightarrow> ValidationResult" where
  "check_sql_safety sql = check_keywords DANGEROUS_KEYWORDS (upper sql)"

text \<open>The semicolon is the code point 59.\<close>

definition check_multiple_statements :: "sql_text \<Rightarrow> ValidationResult" where
  "check_multiple_statements sql =
     (let sql_stripped = strip sql;
          sql_stripped = (if sql_stripped \<noteq> [] \<and> last sql_stripped = 59
                          then butlast sql_stripped else sql_stripped)
      in if 59 \<in> set sql_stripped
         then invalid_result ''SQL query contains multiple statements (semicolons not allowed)'' True
         else valid_result)"

definition validate_segment_filters :: "Plan \<Rightarrow> ValidationResult" where
  "validate_segment_filters plan =
     (let sg = segments plan in
      if truthy (channel sg) \<and> channel sg \<noteq> Some (PStr ''ALL'')
         \<and> the (channel sg) \<notin> set (allowed ''channel'')
      then invalid_result (''Invalid channel value: '' @ sq @ py_str (the (channel sg)) @ sq @ ''. ''
             @ ''Allowed values: '' @ join '', '' (map py_str (allowed ''channel''))
             @ '' or '' @ sq @ ''ALL'' @ sq @ '' for grouping'') False
      else if truthy (grade sg) \<and> grade sg \<noteq> Some (PStr ''ALL'')
         \<and> the (grade sg) \<notin> set (allowed ''grade'')
      then invalid_result (''Invalid grade value: '' @ sq @ py_str (the (grade sg)) @ sq @ ''. ''
             @ ''Allowed values: '' @ join '', '' (map py_str (allowed ''grade''))
             @ '' or '' @ sq @ ''ALL'' @ sq @ '' for grouping'') False
      else if truthy (prod_type sg) \<and> prod_type sg \<noteq> Some (PStr ''ALL'')
         \<and> the (prod_type sg) \<notin> set (allowed ''prod_type'')
      then invalid_result (''Invalid prod_type value: '' @ sq @ py_str (the (prod_type sg)) @ sq @ ''. ''
             @ ''Allowed values: '' @ join '', '' (map py_str (allowed ''prod_type''))
             @ '' or '' @ sq @ ''ALL'' @ sq @ '' for grouping'') False
      else if truthy (repeat_type sg) \<and> the (repeat_type sg) \<notin> set (allowed ''repeat_type'')
      then invalid_result (''Invalid repeat_type value: '' @ sq @ py_str (the (repeat_type sg)) @ sq @ ''. ''
             @ ''Allowed values: '' @ join '', '' (map py_str (allowed ''repeat_type''))) False
      else if truthy (term_field sg) \<and> the (term_field sg) \<notin> set (allowed ''term'')
      then invalid_result (''Invalid term value: '' @ py_str (the (term_field sg)) @ ''. ''
             @ ''Allowed values: '' @ join '', '' (map py_str (allowed ''term''))) False
      else if truthy (cr_fico_band sg) \<and> the (cr_fico_band sg) \<notin> set (allowed ''cr_fico_band'')
      then invalid_result (''Invalid cr_fico_band value: '' @ sq @ py_str (the (cr_fico_band sg)) @ sq @ ''. ''
             @ ''Allowed values: '' @ join '', '' (map py_str (allowed ''cr_fico_band''))) False
      else if truthy (purpose sg) \<and> the (purpose sg) \<notin> set (allowed ''purpose'')
      then invalid_result (''Invalid purpose value: '' @ sq @ py_str (the (purpose sg)) @ sq @ ''. ''
             @ ''Allowed values: '' @ join '', '' (map py_str (allowed ''purpose''))) False
      else valid_result)"

definition window_days :: "(string \<times> int) list" where
  "window_days = [(''last_7d'', 7), (''last_full_week'', 7), (''last_30d'', 30),
                  (''last_full_month'', 31), (''last_3_full_months'', 93)]"

definition validate_time_window :: "Plan \<Rightarrow> ValidationResult" where
  "validate_time_window plan =
     (let days = (case map_of window_days (window plan) of Some d \<Rightarrow> d | None \<Rightarrow> 30)
      in if days > MAX_TIME_WINDOW_DAYS
         then invalid_result (''Time window exceeds maximum allowed ('' @ str_of_int MAX_TIME_WINDOW_DAYS
                @ '' days). Requested window: '' @ window plan @ '' (~'' @ str_of_int days @ '' days). ''
                @ ''Please use a shorter time window or explicitly request a longer period.'') False
         else valid_result)"

text \<open>
  \<^verbatim>\<open>validate\<close>: the rules in order, the first failure returned. The calls to the logger
  (and \<^verbatim>\<open>_log_security_event\<close>) write log records only and are not part of the result.
\<close>

definition validate :: "Plan \<Rightarrow> sql_text \<Rightarrow> ValidationResult" where
  "validate plan sql =
     (let sql_check = check_sql_safety sql in
      if \<not> is_valid sql_check then sql_check
      else let semicolon_check = check_multiple_statements sql in
      if \<not> is_valid semicolon_check then semicolon_check
      else let segment_check = validate_segment_filters plan in
      if \<not> is_valid segment_check then segment_check
      else let window_check = validate_time_window plan in
      if \<not> is_valid window_check then window_check
      else valid_result)"

section \<open>tools/cache_tool.py\<close>

text \<open>
  Clock readings (\<^verbatim>\<open>time.time()\<close>) are real numbers; each operation below takes the reading
  it makes as the argument \<open>now\<close>. The field \<^verbatim>\<open>value\<close> is named \<open>entry_value\<close>.
\<close>

record 'v CacheEntry =
  entry_value :: 'v
  created_at :: real
  expires_at :: real

text \<open>\<^verbatim>\<open>CacheEntry.__init__(value, ttl)\<close>\<close>

definition new_entry :: "'v \<Rightarrow> int \<Rightarrow> real \<Rightarrow> 'v CacheEntry" where
  "new_entry v ttl now = \<lparr>entry_value = v, created_at = now, expires_at = now + of_int ttl\<rparr>"

definition is_expired :: "'v CacheEntry \<Rightarrow> real \<Rightarrow> bool" where
  "is_expired e now = (now > expires_at e)"

text \<open>
  The \<^verbatim>\<open>OrderedDict\<close> \<^verbatim>\<open>_cache\<close> is the list \<open>entries\<close> of key/entry pairs, first item first
  (the least recently used end). The lock serialises the operations; each one is a
  function from the cache to the new cache.
\<close>

record 'v InMemoryLRUCache =
  max_size :: int
  default_ttl :: int
  entries :: "(string \<times> 'v CacheEntry) list"

definition new_cache :: "int \<Rightarrow> int \<Rightarrow> 'v InMemoryLRUCache" where
  "new_cache m t = \<lparr>max_size = m, default_ttl = t, entries = []\<rparr>"

text \<open>\<^verbatim>\<open>del d[key]\<close> and \<^verbatim>\<open>d.move_to_end(key)\<close> on the ordered dictionary.\<close>

definition del_key :: "string \<Rightarrow> (string \<times> 'e) list \<Rightarrow> (string \<times> 'e) list" where
  "del_key key es = filter (\<lambda>p. fst p \<noteq> key) es"

definition move_to_end :: "string \<Rightarrow> (string \<times> 'e) list \<Rightarrow> (string \<times> 'e) list" where
  "move_to_end key es =
     (case map_of es key of None \<Rightarrow> es | Some e \<Rightarrow> del_key key es @ [(key, e)])"

text \<open>
  \<^verbatim>\<open>InMemoryLRUCache.get\<close>. The stored values of the pipeline carry no \<^verbatim>\<open>'df'\<close> item, so the
  returned copy is the stored value.
\<close>

definition lru_get :: "string \<Rightarrow> real \<Rightarrow> 'v InMemoryLRUCache \<Rightarrow> 'v option \<times> 'v InMemoryLRUCache" where
  "lru_get key now c =
     (case map_of (entries c) key of
        None \<Rightarrow> (None, c)
      | Some entry \<Rightarrow>
          if is_expired entry now
          then (None, c\<lparr>entries := del_key key (entries c)\<rparr>)
          else (Some (entry_value entry), c\<lparr>entries := move_to_end key (entries c)\<rparr>))"

text \<open>\<^verbatim>\<open>InMemoryLRUCache.set(key, value, ex)\<close>\<close>

definition lru_set :: "string \<Rightarrow> 'v \<Rightarrow> int option \<Rightarrow> real \<Rightarrow> 'v InMemoryLRUCache \<Rightarrow> 'v InMemoryLRUCache" where
  "lru_set key v ex now c =
     (let ttl = (case ex of Some t \<Rightarrow> t | None \<Rightarrow> default_ttl c);
          entry = new_entry v ttl now;
          es = (if map_of (entries c) key \<noteq> None then del_key key (entries c) else entries c);
          es = es @ [(key, entry)];
          es = (if int (length es) > max_size c then tl es else es)
      in c\<lparr>entries := es\<rparr>)"


definition lru_size :: "'v InMemoryLRUCache \<Rightarrow> nat" where
  "lru_size c = length (entries c)"


text \<open>The recency order of the keys, least recently used first.\<close>

definition lru_keys :: "'v InMemoryLRUCache \<Rightarrow> string list" where
  "lru_keys c = map fst (entries c)"

section \<open>agents/__init__.py: the orchestration graph\<close>

text \<open>
  Modelled from the spec: \<^verbatim>\<open>Insight\<close> is declared in \<^verbatim>\<open>models/schemas.py\<close>, which is not among
  the sources; to the orchestrator it is an opaque narrative artifact. The fields are those
  of the constructor calls in \<^verbatim>\<open>memory_node\<close>.
\<close>

record Insight =
  title :: string
  summary :: string
  bullets :: "string list"
  drivers :: "string list"

text \<open>
  The state item \<^verbatim>\<open>insight\<close> holds an \<^verbatim>\<open>Insight\<close> object, or the dictionary an earlier
  \<^verbatim>\<open>model_dump()\<close> made of one when it comes from the cache.
\<close>

datatype insight_value = InsightObj Insight | InsightDict Insight

type_synonym row = "(string \<times> pyval) list"
type_synonym chart_dict = "(string \<times> string) list"
type_synonym turn = "string \<times> string"

text \<open>The dictionary that \<^verbatim>\<open>cache_store_node\<close> stores and \<^verbatim>\<open>cache_check_node\<close> reads.\<close>

record cache_value =
  cv_df_dict :: "row list option"
  cv_chart_spec :: "chart_dict option"
  cv_insight :: "Insight option"

text \<open>
  \<^verbatim>\<open>GraphState\<close>. The items \<^verbatim>\<open>intent\<close> and \<^verbatim>\<open>cache_key\<close> are named \<open>intent_st\<close> and
  \<open>cache_key_st\<close> here.
\<close>

record GraphState =
  user_query :: string
  conversation_history :: "turn list option"
  intent_st :: "string option"
  plan :: "Plan option"
  sql :: "string option"
  df_dict :: "row list option"
  chart_spec :: "chart_dict option"
  insight :: "insight_value option"
  error :: "string option"
  cache_key_st :: "string option"
  cache_hit :: bool

text \<open>
  The external collaborators during one invocation of the graph. A call returns
  \<open>Inr\<close> its result or \<open>Inl\<close> the text of the exception it raises. \<open>plan_key\<close> is
  \<^verbatim>\<open>Plan.cache_key()\<close>, \<open>time_at_check\<close> and \<open>time_at_store\<close> are the clock readings of the
  cache lookup and the cache store, and \<open>graph_fault\<close> is an exception that escapes
  \<^verbatim>\<open>app.invoke\<close> itself.
\<close>

record collaborators =
  classify :: "string \<Rightarrow> turn list option \<Rightarrow> string + string"
  make_plan :: "string \<Rightarrow> string option \<Rightarrow> turn list option \<Rightarrow> string + Plan"
  plan_key :: "Plan \<Rightarrow> string"
  memory_agent_available :: bool
  explain :: "string \<Rightarrow> string + string"
  sql_run :: "Plan \<Rightarrow> string + row list"
  chart_build :: "Plan \<Rightarrow> row list \<Rightarrow> string + chart_dict"
  summarize :: "Plan \<Rightarrow> row list \<Rightarrow> string + Insight"
  time_at_check :: real
  time_at_store :: real
  graph_fault :: "string option"

text \<open>The calls made to the collaborators and to the cache, in order.\<close>

datatype call =
    CallInvoke
  | CallClassify
  | CallExplain
  | CallMakePlan
  | CallCacheGet string
  | CallValidate sql_text
  | CallSqlRun
  | CallChartBuild
  | CallSummarize
  | CallCacheSet string cache_value

text \<open>What lives outside the state: the global cache instance and the record of calls.\<close>

record world =
  cache :: "cache_value InMemoryLRUCache"
  calls :: "call list"

definition log_call :: "call \<Rightarrow> world \<Rightarrow> world" where
  "log_call c w = w\<lparr>calls := calls w @ [c]\<rparr>"

definition truthy_rows :: "row list option \<Rightarrow> bool" where
  "truthy_rows d = (case d of None \<Rightarrow> False | Some rs \<Rightarrow> rs \<noteq> [])"

definition truthy_chart :: "chart_dict option \<Rightarrow> bool" where
  "truthy_chart c = (case c of None \<Rightarrow> False | Some d \<Rightarrow> d \<noteq> [])"

definition router_node :: "collaborators \<Rightarrow> GraphState \<times> world \<Rightarrow> GraphState \<times> world" where
  "router_node env sw =
     (case sw of (state, w) \<Rightarrow>
        (case classify env (user_query state) (conversation_history state) of
           Inr i \<Rightarrow> (state\<lparr>intent_st := Some i\<rparr>, log_call CallClassify w)
         | Inl e \<Rightarrow> (state\<lparr>error := Some (''Intent classification failed: '' @ e),
                            intent_st := Some ''trend''\<rparr>, log_call CallClassify w)))"

definition explanation_insight :: "string \<Rightarrow> Insight" where
  "explanation_insight text = \<lparr>title = ''Explanation'', summary = text, bullets = [], drivers = []\<rparr>"

definition memory_node :: "collaborators \<Rightarrow> GraphState \<times> world \<Rightarrow> GraphState \<times> world" where
  "memory_node env sw =
     (case sw of (state, w) \<Rightarrow>
        if \<not> memory_agent_available env
        then (state\<lparr>insight := Some (InsightObj (explanation_insight
                ''The explanation feature is not yet configured. Please ensure the RAG tool is initialized.''))\<rparr>, w)
        else (case explain env (user_query state) of
                Inr explanation \<Rightarrow>
                  (state\<lparr>insight := Some (InsightObj (explanation_insight explanation))\<rparr>,
                   log_call CallExplain w)
              | Inl e \<Rightarrow>
                  (state\<lparr>error := Some (''Explanation retrieval failed: '' @ e),
                         insight := Some (InsightObj (explanation_insight
                           ''Unable to retrieve explanation. Please try rephrasing your question.''))\<rparr>,
                   log_call CallExplain w)))"

definition planner_node :: "collaborators \<Rightarrow> GraphState \<times> world \<Rightarrow> GraphState \<times> world" where
  "planner_node env sw =
     (case sw of (state, w) \<Rightarrow>
        (case make_plan env (user_query state) (intent_st state) (conversation_history state) of
           Inr p \<Rightarrow> (state\<lparr>plan := Some p, cache_key_st := Some (plan_key env p)\<rparr>,
                     log_call CallMakePlan w)
         | Inl e \<Rightarrow> (state\<lparr>error := Some (''Query planning failed: '' @ e)\<rparr>,
                     log_call CallMakePlan w)))"

definition cache_check_node :: "collaborators \<Rightarrow> GraphState \<times> world \<Rightarrow> GraphState \<times> world" where
  "cache_check_node env sw =
     (case sw of (state, w) \<Rightarrow>
        if \<not> truthy_str (cache_key_st state) then (state\<lparr>cache_hit := False\<rparr>, w)
        else let key = the (cache_key_st state);
                 r = lru_get key (time_at_check env) (cache w);
                 w' = log_call (CallCacheGet key) (w\<lparr>cache := snd r\<rparr>)
             in (case fst r of
                   Some cached_result \<Rightarrow>
                     (state\<lparr>cache_hit := True,
                            df_dict := cv_df_dict cached_result,
                            chart_spec := cv_chart_spec cached_result,
                            insight := map_option InsightDict (cv_insight cached_result)\<rparr>, w')
                 | None \<Rightarrow> (state\<lparr>cache_hit := False\<rparr>, w')))"

definition guardrail_node :: "collaborators \<Rightarrow> GraphState \<times> world \<Rightarrow> GraphState \<times> world" where
  "guardrail_node env sw =
     (case sw of (state, w) \<Rightarrow>
        (case plan state of
           None \<Rightarrow> (state\<lparr>error := Some ''No plan to validate''\<rparr>, w)
         | Some p \<Rightarrow>
             let validation_result = validate p [];
                 w' = log_call (CallValidate []) w
             in if \<not> is_valid validation_result
                then (state\<lparr>error := error_message validation_result\<rparr>, w')
                else (state, w')))"

definition sql_executor_node :: "collaborators \<Rightarrow> GraphState \<times> world \<Rightarrow> GraphState \<times> world" where
  "sql_executor_node env sw =
     (case sw of (state, w) \<Rightarrow>
        (case plan state of
           None \<Rightarrow> (state\<lparr>error := Some ''No plan to execute''\<rparr>, w)
         | Some p \<Rightarrow>
             (case sql_run env p of
                Inr df \<Rightarrow> (state\<lparr>df_dict := Some df\<rparr>, log_call CallSqlRun w)
              | Inl e \<Rightarrow> (state\<lparr>error := Some (''Query execution failed: '' @ e)\<rparr>,
                          log_call CallSqlRun w))))"

definition chart_node :: "collaborators \<Rightarrow> GraphState \<times> world \<Rightarrow> GraphState \<times> world" where
  "chart_node env sw =
     (case sw of (state, w) \<Rightarrow>
        if plan state = None \<or> \<not> truthy_rows (df_dict state) then (state, w)
        else (case chart_build env (the (plan state)) (the (df_dict state)) of
                Inr spec \<Rightarrow> (state\<lparr>chart_spec := Some spec\<rparr>, log_call CallChartBuild w)
              | Inl e \<Rightarrow> (state, log_call CallChartBuild w)))"

definition insights_node :: "collaborators \<Rightarrow> GraphState \<times> world \<Rightarrow> GraphState \<times> world" where
  "insights_node env sw =
     (case sw of (state, w) \<Rightarrow>
        if plan state = None \<or> \<not> truthy_rows (df_dict state) then (state, w)
        else (case summarize env (the (plan state)) (the (df_dict state)) of
                Inr i \<Rightarrow> (state\<lparr>insight := Some (InsightObj i)\<rparr>, log_call CallSummarize w)
              | Inl e \<Rightarrow> (state, log_call CallSummarize w)))"

text \<open>
  \<^verbatim>\<open>cache_store_node\<close>. \<^verbatim>\<open>state["insight"].model_dump()\<close> raises on a dictionary; the
  \<^verbatim>\<open>except\<close> clause then leaves the cache as it is.
\<close>

definition cache_store_node :: "collaborators \<Rightarrow> GraphState \<times> world \<Rightarrow> GraphState \<times> world" where
  "cache_store_node env sw =
     (case sw of (state, w) \<Rightarrow>
        if \<not> truthy_str (cache_key_st state) then (state, w)
        else if truthy_str (error state) then (state, w)
        else if \<not> truthy_rows (df_dict state) \<or> length (the (df_dict state)) = 0 then (state, w)
        else if \<not> truthy_chart (chart_spec state) \<and> insight state = None then (state, w)
        else (case insight state of
                Some (InsightDict d) \<Rightarrow> (state, w)
              | other \<Rightarrow>
                  let cache_value = \<lparr>cv_df_dict = df_dict state,
                                     cv_chart_spec = chart_spec state,
                                     cv_insight = (case other of Some (InsightObj i) \<Rightarrow> Some i | _ \<Rightarrow> None)\<rparr>;
                      key = the (cache_key_st state)
                  in (state, log_call (CallCacheSet key cache_value)
                               (w\<lparr>cache := lru_set key cache_value (Some 600) (time_at_store env) (cache w)\<rparr>))))"

subsection \<open>Conditional edges\<close>

definition should_use_memory :: "GraphState \<Rightarrow> string" where
  "should_use_memory state = (if intent_st state = Some ''explain'' then ''memory'' else ''planner'')"

definition should_skip_execution :: "GraphState \<Rightarrow> string" where
  "should_skip_execution state =
     (if cache_hit state then ''end''
      else if truthy_str (error state) then ''end''
      else ''guardrail'')"

definition should_continue_after_guardrail :: "GraphState \<Rightarrow> string" where
  "should_continue_after_guardrail state = (if truthy_str (error state) then ''end'' else ''sql'')"

definition should_continue_after_sql_executor :: "GraphState \<Rightarrow> string" where
  "should_continue_after_sql_executor state = (if truthy_str (error state) then ''end'' else ''chart'')"

text \<open>
  \<^verbatim>\<open>create_graph\<close> with its entry point and edges, run from the entry point to \<^verbatim>\<open>END\<close>:
  router, then memory or planner; planner, cache check, then the end or guardrail;
  guardrail, then the end or SQL executor; SQL executor, chart, insights, cache store.
\<close>

definition run_graph :: "collaborators \<Rightarrow> GraphState \<times> world \<Rightarrow> GraphState \<times> world" where
  "run_graph env sw =
     (let s1 = router_node env sw in
      if should_use_memory (fst s1) = ''memory'' then memory_node env s1
      else let s3 = cache_check_node env (planner_node env s1) in
      if should_skip_execution (fst s3) = ''end'' then s3
      else let s4 = guardrail_node env s3 in
      if should_continue_after_guardrail (fst s4) = ''end'' then s4
      else cache_store_node env (insights_node env (chart_node env (sql_executor_node env s4))))"

text \<open>\<^verbatim>\<open>app.invoke(initial_state)\<close>: the final state, or the exception that escapes.\<close>

definition invoke :: "collaborators \<Rightarrow> GraphState \<Rightarrow> world \<Rightarrow> (string + GraphState) \<times> world" where
  "invoke env initial_state w =
     (case graph_fault env of
        Some e \<Rightarrow> (Inl e, log_call CallInvoke w)
      | None \<Rightarrow> (case run_graph env (initial_state, log_call CallInvoke w) of
                   (final, w') \<Rightarrow> (Inr final, w')))"

subsection \<open>\<^verbatim>\<open>run_query\<close>\<close>

record response =
  r_plan :: "Plan option"
  r_chart_spec :: "chart_dict option"
  r_insight :: "Insight option"
  r_error :: "string option"
  r_cache_hit :: bool

datatype py_error = AttributeError

definition initial_graph_state :: "string \<Rightarrow> turn list option \<Rightarrow> GraphState" where
  "initial_graph_state q h =
     \<lparr>user_query = q,
      conversation_history = Some (case h of None \<Rightarrow> [] | Some t \<Rightarrow> t),
      intent_st = None, plan = None, sql = None, df_dict = None, chart_spec = None,
      insight = None, error = None, cache_key_st = None, cache_hit = False\<rparr>"

text \<open>
  The \<^verbatim>\<open>while attempt < max_retries\<close> loop. \<open>envs n\<close> are the collaborators as they behave
  during the invocation made when \<^verbatim>\<open>attempt\<close> is \<open>n\<close>. The result is \<^verbatim>\<open>final_state\<close>
  (\<open>None\<close> for Python's \<^verbatim>\<open>None\<close>) and the world after the loop.
\<close>

function retry_loop ::
  "(nat \<Rightarrow> collaborators) \<Rightarrow> int \<Rightarrow> int \<Rightarrow> GraphState \<Rightarrow> GraphState option \<Rightarrow> world
     \<Rightarrow> GraphState option \<times> world" where
  "retry_loop envs max_retries attempt initial_state final_state w =
     (if attempt < max_retries then
        (case invoke (envs (nat attempt)) initial_state w of
           (Inr fs, w') \<Rightarrow>
             if \<not> truthy_str (error fs) then (Some fs, w')
             else retry_loop envs max_retries (attempt + 1)
                    (if attempt + 1 < max_retries then initial_state\<lparr>error := None\<rparr> else initial_state)
                    (Some fs) w'
         | (Inl e, w') \<Rightarrow>
             retry_loop envs max_retries (attempt + 1) initial_state
               (if attempt + 1 \<ge> max_retries
                then Some (initial_state\<lparr>error := Some (''Query execution failed after ''
                        @ str_of_int max_retries @ '' attempts: '' @ e)\<rparr>)
                else final_state) w')
      else (final_state, w))"
  by pat_completeness auto
termination
  by (relation "measure (\<lambda>(envs, max_retries, attempt, initial_state, final_state, w). nat (max_retries - attempt))") auto

declare retry_loop.simps [simp del]

text \<open>
  Building the response reads \<^verbatim>\<open>final_state.get(...)\<close>; on \<^verbatim>\<open>None\<close> this is an
  \<^verbatim>\<open>AttributeError\<close>, which nothing catches.
\<close>

definition build_response :: "GraphState option \<Rightarrow> py_error + response" where
  "build_response final_state =
     (case final_state of
        None \<Rightarrow> Inl AttributeError
      | Some fs \<Rightarrow>
          Inr \<lparr>r_plan = plan fs,
               r_chart_spec = chart_spec fs,
               r_insight = (case insight fs of
                              None \<Rightarrow> None
                            | Some (InsightDict d) \<Rightarrow> Some d
                            | Some (InsightObj i) \<Rightarrow> Some i),
               r_error = error fs,
               r_cache_hit = cache_hit fs\<rparr>)"

definition run_query ::
  "(nat \<Rightarrow> collaborators) \<Rightarrow> string \<Rightarrow> turn list option \<Rightarrow> int \<Rightarrow> world
     \<Rightarrow> (py_error + response) \<times> world" where
  "run_query envs q h max_retries w =
     (case retry_loop envs max_retries 0 (initial_graph_state q h) None w of
        (final_state, w') \<Rightarrow> (build_response final_state, w'))"

section \<open>The cache fingerprint of a plan\<close>

text \<open>
  Modelled from the spec: \<^verbatim>\<open>Plan.cache_key()\<close> is declared in \<^verbatim>\<open>models/schemas.py\<close>, which is
  not among the sources (\<^verbatim>\<open>planner_node\<close> only calls it). The spec: the fingerprint is a
  cryptographic hash of a deterministic, order-stable serialization of the Plan, whose
  segment filters are a mapping of names to values. The serialization below is a JSON
  text with the keys in sorted order; the hash is the parameter \<open>H\<close>.
\<close>

definition dq :: string where
  "dq = [CHR 0x22]"

fun json_value :: "pyval option \<Rightarrow> string" where
  "json_value None = ''null''"
| "json_value (Some (PStr s)) = dq @ s @ dq"
| "json_value (Some (PInt i)) = str_of_int i"

definition json_item :: "string \<times> pyval option \<Rightarrow> string" where
  "json_item kv = dq @ fst kv @ dq @ '': '' @ json_value (snd kv)"

text \<open>
  Modelled from the spec: the order-stable serialization of a mapping, given by its entries
  in insertion order, writes the entries with their keys in sorted order.
\<close>

definition json_object :: "(string \<times> pyval option) list \<Rightarrow> string" where
  "json_object m = ''{'' @ join '', '' (map json_item (sort_key fst m)) @ ''}''"

text \<open>
  Modelled from the spec: the deterministic serialization of a Plan, its fields in the
  sorted order of their names, with the segment mapping \<open>m\<close> among them.
\<close>

definition serialize_plan :: "Plan \<Rightarrow> (string \<times> pyval option) list \<Rightarrow> string" where
  "serialize_plan p m =
     ''{'' @ json_item (''chart'', Some (PStr (chart p)))
     @ '', '' @ json_item (''date_col'', Some (PStr (date_col p)))
     @ '', '' @ json_item (''granularity'', Some (PStr (granularity p)))
     @ '', '' @ json_item (''intent'', Some (PStr (intent p)))
     @ '', '' @ json_item (''metric'', Some (PStr (metric p)))
     @ '', '' @ dq @ ''segments'' @ dq @ '': '' @ json_object m
     @ '', '' @ json_item (''table'', Some (PStr (table p)))
     @ '', '' @ json_item (''window'', Some (PStr (window p))) @ ''}''"

text \<open>
  Modelled from the spec: the fingerprint of a plan whose segment mapping has the entries
  \<open>m\<close> is the hash of its serialization.
\<close>

definition fingerprint :: "(string \<Rightarrow> string) \<Rightarrow> Plan \<Rightarrow> (string \<times> pyval option) list \<Rightarrow> string" where
  "fingerprint H p m = H (serialize_plan p m)"

text \<open>
  Modelled from the spec: \<^verbatim>\<open>Plan.cache_key()\<close> is the fingerprint of the plan, its segment
  mapping having the entries of \<^verbatim>\<open>SegmentFilters\<close> in the order of the field declarations.
\<close>

definition segment_items :: "SegmentFilters \<Rightarrow> (string \<times> pyval option) list" where
  "segment_items sg =
     [(''channel'', channel sg), (''grade'', grade sg), (''prod_type'', prod_type sg),
      (''repeat_type'', repeat_type sg), (''term'', term_field sg),
      (''cr_fico_band'', cr_fico_band sg), (''purpose'', purpose sg)]"

definition cache_key :: "(string \<Rightarrow> string) \<Rightarrow> Plan \<Rightarrow> string" where
  "cache_key H p = fingerprint H p (segment_items (segments p))"

text \<open>Two plans agree on every field other than the segment mapping.\<close>

definition same_scalar_fields :: "Plan \<Rightarrow> Plan \<Rightarrow> bool" where
  "same_scalar_fields p1 p2 =
     (intent p1 = intent p2 \<and> table p1 = table p2 \<and> metric p1 = metric p2
      \<and> date_col p1 = date_col p2 \<and> window p1 = window p2
      \<and> granularity p1 = granularity p2 \<and> chart p1 = chart p2)"

subsection \<open>Sequences of cache operations\<close>





text \<open>Every entry stored under \<open>key\<close> expires at \<open>x\<close>.\<close>

definition expiry_fixed :: "string \<Rightarrow> real \<Rightarrow> 'v InMemoryLRUCache \<Rightarrow> bool" where
  "expiry_fixed key x c = (\<forall>e. (key, e) \<in> set (entries c) \<longrightarrow> expires_at e = x)"


subsection \<open>The calls of one run of the graph\<close>

text \<open>The calls that a run of the graph from \<open>state\<close> in the world \<open>w\<close> adds to the record.\<close>

definition run_calls :: "collaborators \<Rightarrow> GraphState \<Rightarrow> world \<Rightarrow> call list" where
  "run_calls env state w = drop (length (calls w)) (calls (snd (run_graph env (state, w))))"

fun is_cache_set :: "call \<Rightarrow> bool" where
  "is_cache_set (CallCacheSet k cv) = True"
| "is_cache_set CallInvoke = False"
| "is_cache_set CallClassify = False"
| "is_cache_set CallExplain = False"
| "is_cache_set CallMakePlan = False"
| "is_cache_set (CallCacheGet k) = False"
| "is_cache_set (CallValidate s) = False"
| "is_cache_set CallSqlRun = False"
| "is_cache_set CallChartBuild = False"
| "is_cache_set CallSummarize = False"

section \<open>Specification-level notions\<close>

subsection \<open>A keyword as a whole word, case-insensitively\<close>





subsection \<open>The segment-value rule, field by field\<close>

datatype segment_field = Channel | Grade | ProdType | RepeatType | Term | CrFicoBand | Purpose

text \<open>The fields in the order in which the rule examines them.\<close>

definition segment_fields :: "segment_field list" where
  "segment_fields = [Channel, Grade, ProdType, RepeatType, Term, CrFicoBand, Purpose]"

fun field_name :: "segment_field \<Rightarrow> string" where
  "field_name Channel = ''channel''"
| "field_name Grade = ''grade''"
| "field_name ProdType = ''prod_type''"
| "field_name RepeatType = ''repeat_type''"
| "field_name Term = ''term''"
| "field_name CrFicoBand = ''cr_fico_band''"
| "field_name Purpose = ''purpose''"

fun field_value :: "segment_field \<Rightarrow> SegmentFilters \<Rightarrow> pyval option" where
  "field_value Channel sg = channel sg"
| "field_value Grade sg = grade sg"
| "field_value ProdType sg = prod_type sg"
| "field_value RepeatType sg = repeat_type sg"
| "field_value Term sg = term_field sg"
| "field_value CrFicoBand sg = cr_fico_band sg"
| "field_value Purpose sg = purpose sg"

text \<open>The fields for which the sentinel \<^verbatim>\<open>"ALL"\<close> (group by this field) is accepted.\<close>

definition grouping_field :: "segment_field \<Rightarrow> bool" where
  "grouping_field f = (f = Channel \<or> f = Grade \<or> f = ProdType)"

definition value_accepted :: "segment_field \<Rightarrow> pyval \<Rightarrow> bool" where
  "value_accepted f v = ((grouping_field f \<and> v = PStr ''ALL'') \<or> v \<in> set (allowed (field_name f)))"

text \<open>A field offends when it is populated with a value that is not accepted.\<close>

definition offending :: "SegmentFilters \<Rightarrow> segment_field \<Rightarrow> bool" where
  "offending sg f = (truthy (field_value f sg) \<and> \<not> value_accepted f (the (field_value f sg)))"

definition first_offending :: "SegmentFilters \<Rightarrow> segment_field option" where
  "first_offending sg = find (offending sg) segment_fields"

text \<open>The message: the field name, the value, and the allowed set of the field.\<close>

definition segment_error :: "segment_field \<Rightarrow> pyval \<Rightarrow> string" where
  "segment_error f v =
     ''Invalid '' @ field_name f @ '' value: ''
     @ (if f = Term then py_str v else sq @ py_str v @ sq) @ ''. ''
     @ ''Allowed values: '' @ join '', '' (map py_str (allowed (field_name f)))
     @ (if grouping_field f then '' or '' @ sq @ ''ALL'' @ sq @ '' for grouping'' else [])"

section \<open>Example inputs\<close>

definition no_filters :: SegmentFilters where
  "no_filters = \<lparr>channel = None, grade = None, prod_type = None, repeat_type = None,
                  term_field = None, cr_fico_band = None, purpose = None\<rparr>"

definition example_plan :: Plan where
  "example_plan = \<lparr>intent = ''trend'', table = ''cps_tb'', metric = ''issued_amnt'',
                    date_col = ''issued_d'', window = ''last_30d'', granularity = ''weekly'',
                    segments = no_filters, chart = ''line''\<rparr>"

definition plan_repeat_all :: Plan where
  "plan_repeat_all = example_plan\<lparr>segments := no_filters\<lparr>repeat_type := Some (PStr ''ALL'')\<rparr>\<rparr>"

definition plan_bad_grade :: Plan where
  "plan_bad_grade = example_plan\<lparr>segments := no_filters\<lparr>channel := Some (PStr ''ALL''),
                       grade := Some (PStr ''P99''), term_field := Some (PInt 99)\<rparr>\<rparr>"


text \<open>A cache of capacity one holding \<open>a\<close>, and a cache of capacity two holding \<open>a\<close> and \<open>b\<close>.\<close>

definition cache_one :: "nat InMemoryLRUCache" where
  "cache_one = lru_set ''a'' 1 None 0 (new_cache 1 600)"

definition cache_two :: "nat InMemoryLRUCache" where
  "cache_two = lru_set ''b'' 2 None 1 (lru_set ''a'' 1 None 0 (new_cache 2 600))"

text \<open>
  Collaborators that all succeed, the same with a classifier that raises, and a world
  with an empty cache of the default size.
\<close>

definition example_insight :: Insight where
  "example_insight = \<lparr>title = ''Trend'', summary = ''Issuance is up'', bullets = [], drivers = []\<rparr>"

definition healthy_env :: collaborators where
  "healthy_env =
     \<lparr>classify = (\<lambda>q h. Inr ''trend''),
      make_plan = (\<lambda>q i h. Inr example_plan),
      plan_key = (\<lambda>p. ''key1''),
      memory_agent_available = True,
      explain = (\<lambda>q. Inr ''Funding rate is issued over approved''),
      sql_run = (\<lambda>p. Inr [[(''week'', PInt 1), (''issued_amnt'', PInt 100)]]),
      chart_build = (\<lambda>p rows. Inr [(''type'', ''line'')]),
      summarize = (\<lambda>p rows. Inr example_insight),
      time_at_check = 0,
      time_at_store = 1,
      graph_fault = None\<rparr>"


definition empty_world :: world where
  "empty_world = \<lparr>cache = new_cache 100 600, calls = []\<rparr>"

text \<open>
  Collaborators whose classifier answers \<^verbatim>\<open>explain\<close>, and the world left by one run of the
  graph with the collaborators that all succeed.
\<close>

definition explain_env :: collaborators where
  "explain_env = healthy_env\<lparr>classify := (\<lambda>q h. Inr ''explain'')\<rparr>"

definition warm_world :: world where
  "warm_world = snd (run_graph healthy_env (initial_graph_state ''q'' None, empty_world))"

section \<open>Properties of the guardrail\<close>

subsection \<open>Word-boundary search and whole-word occurrences\<close>
















subsection \<open>The segment-value rule as a search for the first offending field\<close>

lemma vtw: "validate_time_window p = valid_result"
  unfolding validate_time_window_def window_days_def MAX_TIME_WINDOW_DAYS_def
  by (simp add: Let_def)

lemma truthy_all: "truthy (Some (PStr ''ALL''))" by simp

lemma if_chain:
  assumes "c = c'" "a = h f" "b = (case r of None \<Rightarrow> d | Some g \<Rightarrow> h g)"
  shows "(if c then a else b) = (case (if c' then Some f else r) of None \<Rightarrow> d | Some g \<Rightarrow> h g)"
  using assms by simp

lemma first_offending_chain:
  "first_offending sg =
     (if offending sg Channel then Some Channel
      else if offending sg Grade then Some Grade
      else if offending sg ProdType then Some ProdType
      else if offending sg RepeatType then Some RepeatType
      else if offending sg Term then Some Term
      else if offending sg CrFicoBand then Some CrFicoBand
      else if offending sg Purpose then Some Purpose
      else None)"
  by (simp add: first_offending_def segment_fields_def)

lemma offending_grouping:
  "grouping_field f \<Longrightarrow>
   (truthy (field_value f sg) \<and> field_value f sg \<noteq> Some (PStr ''ALL'')
      \<and> the (field_value f sg) \<notin> set (allowed (field_name f))) = offending sg f"
  by (cases "field_value f sg") (auto simp: offending_def value_accepted_def)

lemma offending_plain:
  "\<not> grouping_field f \<Longrightarrow>
   (truthy (field_value f sg) \<and> the (field_value f sg) \<notin> set (allowed (field_name f))) = offending sg f"
  by (auto simp: offending_def value_accepted_def)

lemma vsf_refines:
  "validate_segment_filters p =
     (case first_offending (segments p) of
        None \<Rightarrow> valid_result
      | Some f \<Rightarrow> invalid_result (segment_error f (the (field_value f (segments p)))) False)"
  unfolding validate_segment_filters_def Let_def first_offending_chain
  apply (rule if_chain)
    apply (rule offending_grouping[of Channel, simplified grouping_field_def, simplified])
   apply (simp add: segment_error_def grouping_field_def)
  apply (rule if_chain)
    apply (rule offending_grouping[of Grade, simplified grouping_field_def, simplified])
   apply (simp add: segment_error_def grouping_field_def)
  apply (rule if_chain)
    apply (rule offending_grouping[of ProdType, simplified grouping_field_def, simplified])
   apply (simp add: segment_error_def grouping_field_def)
  apply (rule if_chain)
    apply (rule offending_plain[of RepeatType, simplified grouping_field_def, simplified])
   apply (simp add: segment_error_def grouping_field_def)
  apply (rule if_chain)
    apply (rule offending_plain[of Term, simplified grouping_field_def, simplified])
   apply (simp add: segment_error_def grouping_field_def)
  apply (rule if_chain)
    apply (rule offending_plain[of CrFicoBand, simplified grouping_field_def, simplified])
   apply (simp add: segment_error_def grouping_field_def)
  apply (rule if_chain)
    apply (rule offending_plain[of Purpose, simplified grouping_field_def, simplified])
   apply (simp add: segment_error_def grouping_field_def)
  apply simp
  done


lemma vsf_valid_result: "is_valid (validate_segment_filters p) \<Longrightarrow> validate_segment_filters p = valid_result"
  by (simp add: vsf_refines invalid_result_def split: option.splits)

lemma vsf_security: "\<not> security_event (validate_segment_filters p)"
  by (simp add: vsf_refines invalid_result_def valid_result_def split: option.splits)

lemma css_empty: "check_sql_safety [] = valid_result"
  by (simp add: check_sql_safety_def DANGEROUS_KEYWORDS_def upper_def re_search_word_def match_at_def word_boundary_def word_before_def word_after_def)

lemma cms_empty: "check_multiple_statements [] = valid_result"
  by (simp add: check_multiple_statements_def strip_def)

lemma validate_three_rules:
  "validate p s =
     (if \<not> is_valid (check_sql_safety s) then check_sql_safety s
      else if \<not> is_valid (check_multiple_statements s) then check_multiple_statements s
      else validate_segment_filters p)"
  by (simp add: validate_def Let_def vtw vsf_valid_result valid_result_def)


text \<open>
  C10: the rejection branch of the time-window rule is unreachable. Every window code the
  rule knows maps to at most 93 days and an unknown code counts as 30 days, both below the
  ceiling of 365 days; so \<^verbatim>\<open>_validate_time_window\<close> returns the valid result for every plan,
  and the result of \<^verbatim>\<open>validate\<close> is that of the first three rules.
\<close>

theorem time_window_never_rejects:
  "list_all (\<lambda>wd. snd wd \<le> 93) window_days
   \<and> 93 < MAX_TIME_WINDOW_DAYS \<and> 30 < MAX_TIME_WINDOW_DAYS
   \<and> validate_time_window p = valid_result
   \<and> validate p s =
       (if \<not> is_valid (check_sql_safety s) then check_sql_safety s
        else if \<not> is_valid (check_multiple_statements s) then check_multiple_statements s
        else validate_segment_filters p)"
proof -
  have "list_all (\<lambda>wd. snd wd \<le> 93) window_days" by (simp add: window_days_def)
  moreover have "93 < MAX_TIME_WINDOW_DAYS \<and> 30 < MAX_TIME_WINDOW_DAYS"
    by (simp add: MAX_TIME_WINDOW_DAYS_def)
  ultimately show ?thesis using vtw[of p] validate_three_rules[of p s] by simp
qed






text \<open>
  C9: the guardrail node calls \<^verbatim>\<open>validate\<close> with the empty string as SQL text. On the empty
  text the keyword rule and the multiple-statement rule pass, so the result never carries
  the security flag and is decided by the segment filters and the time window of the plan.
\<close>

theorem guardrail_node_validates_empty_sql:
  "check_sql_safety [] = valid_result
   \<and> check_multiple_statements [] = valid_result
   \<and> \<not> security_event (validate p [])
   \<and> validate p [] =
       (if is_valid (validate_segment_filters p) then validate_time_window p
        else validate_segment_filters p)
   \<and> guardrail_node env (st\<lparr>plan := Some p\<rparr>, w) =
       (if is_valid (validate p []) then st\<lparr>plan := Some p\<rparr>
        else st\<lparr>plan := Some p, error := error_message (validate p [])\<rparr>,
        log_call (CallValidate []) w)"
proof -
  have v: "validate p [] = validate_segment_filters p"
    by (simp add: validate_three_rules css_empty cms_empty valid_result_def)
  have "validate p [] =
       (if is_valid (validate_segment_filters p) then validate_time_window p
        else validate_segment_filters p)"
    using vsf_valid_result[of p] by (simp add: v vtw)
  moreover have "\<not> security_event (validate p [])" by (simp add: v vsf_security)
  moreover have "guardrail_node env (st\<lparr>plan := Some p\<rparr>, w) =
       (if is_valid (validate p []) then st\<lparr>plan := Some p\<rparr>
        else st\<lparr>plan := Some p, error := error_message (validate p [])\<rparr>,
        log_call (CallValidate []) w)"
    by (simp add: guardrail_node_def Let_def)
  ultimately show ?thesis by (simp add: css_empty cms_empty)
qed

text \<open>
  C2, as stated, fails: for \<^verbatim>\<open>repeat_type\<close> the sentinel \<^verbatim>\<open>"ALL"\<close> is rejected, with the
  message that lists the allowed values \<^verbatim>\<open>Repeat, New\<close>.
\<close>

theorem all_rejected_for_repeat_type_counterexample:
  "repeat_type (segments plan_repeat_all) = Some (PStr ''ALL'')
   \<and> is_valid (check_sql_safety (code_points ''SELECT 1''))
   \<and> is_valid (check_multiple_statements (code_points ''SELECT 1''))
   \<and> \<not> is_valid (validate plan_repeat_all (code_points ''SELECT 1''))
   \<and> error_message (validate plan_repeat_all (code_points ''SELECT 1''))
       = Some (''Invalid repeat_type value: '' @ sq @ ''ALL'' @ sq @ ''. Allowed values: Repeat, New'')"
proof -
  have a: "is_valid (check_sql_safety (code_points ''SELECT 1''))" by code_simp
  have b: "is_valid (check_multiple_statements (code_points ''SELECT 1''))" by code_simp
  have c: "validate_segment_filters plan_repeat_all
      = invalid_result (''Invalid repeat_type value: '' @ sq @ ''ALL'' @ sq @ ''. Allowed values: Repeat, New'') False"
    by (simp add: validate_segment_filters_def plan_repeat_all_def example_plan_def no_filters_def
        allowed_def ALLOWED_SEGMENTS_def Let_def)
  have d: "validate plan_repeat_all (code_points ''SELECT 1'') = validate_segment_filters plan_repeat_all"
    using a b by (simp add: validate_three_rules)
  have e: "repeat_type (segments plan_repeat_all) = Some (PStr ''ALL'')"
    by (simp add: plan_repeat_all_def)
  show ?thesis using a b e
    by (simp add: d c invalid_result_def)
qed

text \<open>
  C2, amended: \<^verbatim>\<open>_validate_segment_filters\<close> examines the fields in the order channel, grade,
  prod_type, repeat_type, term, cr_fico_band, purpose. A populated value of channel, grade
  or prod_type is accepted exactly when it is \<^verbatim>\<open>"ALL"\<close> or a member of the allowed set of the
  field; a populated value of repeat_type, term, cr_fico_band or purpose is accepted exactly
  when it is a member of the allowed set (\<^verbatim>\<open>"ALL"\<close> is not accepted there). The result is the
  rejection for the first offending field, with a message that names the field and lists
  its allowed set, and it is never a security event; when the two SQL rules pass, it is
  the result of \<^verbatim>\<open>validate\<close>.
\<close>

theorem segment_value_scan:
  "validate_segment_filters p =
     (case first_offending (segments p) of
        None \<Rightarrow> valid_result
      | Some f \<Rightarrow> invalid_result (segment_error f (the (field_value f (segments p)))) False)
   \<and> is_valid (validate_segment_filters p) = list_all (\<lambda>f. \<not> offending (segments p) f) segment_fields
   \<and> \<not> security_event (validate_segment_filters p)
   \<and> (is_valid (check_sql_safety s) \<and> is_valid (check_multiple_statements s) \<longrightarrow>
        validate p s = validate_segment_filters p)"
proof -
  have "is_valid (validate_segment_filters p) = list_all (\<lambda>f. \<not> offending (segments p) f) segment_fields"
  proof -
    have "(first_offending (segments p) = None)
        = list_all (\<lambda>f. \<not> offending (segments p) f) segment_fields"
      by (auto simp: first_offending_def find_None_iff list_all_iff)
    then show ?thesis
      by (cases "first_offending (segments p)")
        (simp_all add: vsf_refines valid_result_def invalid_result_def)
  qed
  then show ?thesis
    using vsf_refines[of p] vsf_security[of p] validate_three_rules[of p s] by simp
qed

theorem segment_value_scan_witness:
  "is_valid (check_sql_safety (code_points ''SELECT 1''))
   \<and> is_valid (check_multiple_statements (code_points ''SELECT 1''))
   \<and> first_offending (segments plan_bad_grade) = Some Grade
   \<and> validate plan_bad_grade (code_points ''SELECT 1'')
       = invalid_result (''Invalid grade value: '' @ sq @ ''P99'' @ sq
           @ ''. Allowed values: P1, P2, P3, P4, P5, P6 or '' @ sq @ ''ALL'' @ sq @ '' for grouping'') False
   \<and> is_valid (validate (example_plan\<lparr>segments := no_filters\<lparr>grade := Some (PStr ''ALL''), term_field := Some (PInt 60)\<rparr>\<rparr>) (code_points ''SELECT 1''))"
proof -
  have a: "is_valid (check_sql_safety (code_points ''SELECT 1''))" by code_simp
  have b: "is_valid (check_multiple_statements (code_points ''SELECT 1''))" by code_simp
  have c: "first_offending (segments plan_bad_grade) = Some Grade"
    by (simp add: first_offending_def segment_fields_def offending_def value_accepted_def
        grouping_field_def plan_bad_grade_def example_plan_def no_filters_def allowed_def ALLOWED_SEGMENTS_def)
  have d: "segment_error Grade (the (field_value Grade (segments plan_bad_grade)))
     = ''Invalid grade value: '' @ sq @ ''P99'' @ sq
           @ ''. Allowed values: P1, P2, P3, P4, P5, P6 or '' @ sq @ ''ALL'' @ sq @ '' for grouping''"
    by (simp add: segment_error_def grouping_field_def plan_bad_grade_def example_plan_def
        no_filters_def allowed_def ALLOWED_SEGMENTS_def)
  have e: "first_offending (segments (example_plan\<lparr>segments := no_filters\<lparr>grade := Some (PStr ''ALL''), term_field := Some (PInt 60)\<rparr>\<rparr>)) = None"
    by (simp add: first_offending_def segment_fields_def offending_def value_accepted_def
        grouping_field_def example_plan_def no_filters_def allowed_def ALLOWED_SEGMENTS_def)
  show ?thesis
    using a b c d e segment_value_scan[of plan_bad_grade "code_points ''SELECT 1''"]
      segment_value_scan[of "example_plan\<lparr>segments := no_filters\<lparr>grade := Some (PStr ''ALL''), term_field := Some (PInt 60)\<rparr>\<rparr>" "code_points ''SELECT 1''"]
    by (simp add: valid_result_def)
qed


section \<open>Properties of the cache\<close>

lemma keys_del_key: "map fst (del_key k es) = filter (\<lambda>x. x \<noteq> k) (map fst es)"
  by (simp add: del_key_def filter_map comp_def)

lemma filter_neq_absent: "k \<notin> set xs \<Longrightarrow> filter (\<lambda>x. x \<noteq> k) xs = xs"
  by (induction xs) auto

lemma length_filter_neq:
  "distinct xs \<Longrightarrow> k \<in> set xs \<Longrightarrow> Suc (length (filter (\<lambda>x. x \<noteq> k) xs)) = length xs"
proof (induction xs)
  case Nil
  then show ?case by simp
next
  case (Cons a xs)
  show ?case
  proof (cases "a = k")
    case True
    then have "k \<notin> set xs" using Cons.prems by simp
    then have "filter (\<lambda>x. x \<noteq> k) xs = xs" by (rule filter_neq_absent)
    then show ?thesis using True by simp
  next
    case False
    then show ?thesis using Cons by simp
  qed
qed

lemma absent_iff: "(map_of es k = None) = (k \<notin> set (map fst es))"
  by (simp add: map_of_eq_None_iff)

lemma length_del_key:
  "distinct (map fst es) \<Longrightarrow> k \<in> set (map fst es) \<Longrightarrow> Suc (length (del_key k es)) = length es"
  using length_filter_neq[of "map fst es" k] keys_del_key[of k es]
  by (metis length_map)

lemma map_of_del_key_same: "map_of (del_key k es) k = None"
  by (simp add: absent_iff keys_del_key)

lemma keys_lru_set_absent:
  assumes "key \<notin> set (lru_keys c)"
  shows "lru_keys (lru_set key v ex now c) =
     (if int (length (lru_keys c)) + 1 > max_size c then tl (lru_keys c @ [key]) else lru_keys c @ [key])"
proof -
  have none: "map_of (entries c) key = None" using assms by (simp add: absent_iff lru_keys_def)
  show ?thesis
    by (simp add: lru_set_def Let_def none lru_keys_def map_tl)
qed

lemma keys_lru_set_present:
  assumes "key \<in> set (lru_keys c)" "distinct (lru_keys c)"
  shows "lru_keys (lru_set key v ex now c) =
     (if int (length (lru_keys c)) > max_size c then tl (filter (\<lambda>x. x \<noteq> key) (lru_keys c) @ [key])
      else filter (\<lambda>x. x \<noteq> key) (lru_keys c) @ [key])"
proof -
  have some: "map_of (entries c) key \<noteq> None" using assms(1) by (simp add: absent_iff lru_keys_def)
  have len: "Suc (length (del_key key (entries c))) = length (entries c)"
    using assms by (simp add: length_del_key lru_keys_def)
  have "lru_set key v ex now c =
     c\<lparr>entries := (let es = del_key key (entries c) @ [(key, new_entry v (case ex of Some t \<Rightarrow> t | None \<Rightarrow> default_ttl c) now)]
                    in if int (length es) > max_size c then tl es else es)\<rparr>"
    using some by (simp add: lru_set_def Let_def)
  then show ?thesis using len
    by (simp add: lru_keys_def Let_def map_tl keys_del_key)
qed

lemma lru_get_hit:
  "map_of (entries c) k = Some e \<Longrightarrow> \<not> is_expired e now \<Longrightarrow>
   lru_get k now c = (Some (entry_value e), c\<lparr>entries := del_key k (entries c) @ [(k, e)]\<rparr>)"
  by (simp add: lru_get_def move_to_end_def)



lemma map_of_set_present:
  assumes "int (length (lru_keys c)) \<le> max_size c" "key \<in> set (lru_keys c)" "distinct (lru_keys c)"
  shows "map_of (entries (lru_set key v ex now c)) key
     = Some (new_entry v (case ex of Some t \<Rightarrow> t | None \<Rightarrow> default_ttl c) now)"
proof -
  have some: "map_of (entries c) key \<noteq> None" using assms(2) by (simp add: absent_iff lru_keys_def)
  have len: "Suc (length (del_key key (entries c))) = length (entries c)"
    using assms by (simp add: length_del_key lru_keys_def)
  have "\<not> int (length (del_key key (entries c) @ [(key, e)])) > max_size c" for e
    using len assms(1) by (simp add: lru_keys_def)
  then have "entries (lru_set key v ex now c) =
     del_key key (entries c) @ [(key, new_entry v (case ex of Some t \<Rightarrow> t | None \<Rightarrow> default_ttl c) now)]"
    using some by (simp add: lru_set_def Let_def)
  then show ?thesis by (simp add: map_of_del_key_same map_add_def)
qed


lemma keys_after_hit:
  assumes "map_of (entries c) k = Some e" "\<not> is_expired e now"
  shows "lru_keys (snd (lru_get k now c)) = filter (\<lambda>x. x \<noteq> k) (lru_keys c) @ [k]"
  using assms by (simp add: lru_get_hit lru_keys_def keys_del_key)

lemma entries_lru_set_absent:
  assumes "key \<notin> set (lru_keys c)"
  shows "entries (lru_set key v ex now c) =
     (let es = entries c @ [(key, new_entry v (case ex of Some t \<Rightarrow> t | None \<Rightarrow> default_ttl c) now)]
      in if int (length es) > max_size c then tl es else es)"
proof -
  have none: "map_of (entries c) key = None" using assms by (simp add: absent_iff lru_keys_def)
  show ?thesis by (simp add: lru_set_def Let_def none)
qed
lemma cache_two_entries:
  "entries cache_two = [(''a'', \<lparr>entry_value = 1, created_at = 0, expires_at = 600\<rparr>),
                        (''b'', \<lparr>entry_value = 2, created_at = 1, expires_at = 601\<rparr>)]"
  by (simp add: cache_two_def new_cache_def lru_set_def Let_def new_entry_def)

lemma cache_two_max_size: "max_size cache_two = 2"
  by (simp add: cache_two_def new_cache_def lru_set_def Let_def)

text \<open>
  C5, as stated, fails for a cache of capacity one: a \<^verbatim>\<open>get\<close> on its only entry does not
  protect the entry from the eviction that the next new key causes.
\<close>

theorem lru_eviction_order_counterexample:
  "max_size cache_one = 1 \<and> lru_keys cache_one = [''a'']
   \<and> fst (lru_get ''a'' 5 cache_one) = Some 1
   \<and> lru_keys (snd (lru_get ''a'' 5 cache_one)) = [''a'']
   \<and> lru_keys (lru_set ''b'' 2 None 6 (snd (lru_get ''a'' 5 cache_one))) = [''b'']"
  by (simp add: cache_one_def new_cache_def lru_set_def lru_get_def lru_keys_def Let_def
      new_entry_def is_expired_def move_to_end_def del_key_def)

text \<open>
  C5, amended. For a cache with distinct keys: (1) when it holds \<^verbatim>\<open>max_size\<close> keys, \<^verbatim>\<open>set\<close> with a
  new key appends the new entry and evicts exactly one entry, the first in recency order
  (the least recently accessed one, ties in insertion order); (2) when moreover
  \<^verbatim>\<open>max_size\<close> is at least two, a \<^verbatim>\<open>get\<close> that hits a live entry moves it to the most
  recently used end, so that the next \<^verbatim>\<open>set\<close> with a new key evicts the first of the other
  entries and keeps the entry read; (3) \<^verbatim>\<open>set\<close> on a key already present replaces its entry
  and moves it to the most recently used end, and the number of keys stays the same.
\<close>

theorem lru_eviction_order:
  fixes c :: "'v InMemoryLRUCache"
  assumes "distinct (lru_keys c)"
  shows
   "(int (length (lru_keys c)) = max_size c \<and> key \<notin> set (lru_keys c) \<longrightarrow>
       entries (lru_set key v ex now c)
         = tl (entries c @ [(key, new_entry v (case ex of Some t \<Rightarrow> t | None \<Rightarrow> default_ttl c) now)])
       \<and> lru_keys (lru_set key v ex now c) = tl (lru_keys c @ [key]))
    \<and> (int (length (lru_keys c)) = max_size c \<and> 2 \<le> max_size c \<and> key \<notin> set (lru_keys c)
        \<and> map_of (entries c) k = Some e \<and> \<not> is_expired e t1 \<longrightarrow>
       fst (lru_get k t1 c) = Some (entry_value e)
       \<and> lru_keys (snd (lru_get k t1 c)) = filter (\<lambda>x. x \<noteq> k) (lru_keys c) @ [k]
       \<and> lru_keys (lru_set key v ex now (snd (lru_get k t1 c)))
           = tl (filter (\<lambda>x. x \<noteq> k) (lru_keys c)) @ [k, key])
    \<and> (int (length (lru_keys c)) \<le> max_size c \<and> key \<in> set (lru_keys c) \<longrightarrow>
       lru_keys (lru_set key v ex now c) = filter (\<lambda>x. x \<noteq> key) (lru_keys c) @ [key]
       \<and> length (lru_keys (lru_set key v ex now c)) = length (lru_keys c)
       \<and> map_of (entries (lru_set key v ex now c)) key
           = Some (new_entry v (case ex of Some t \<Rightarrow> t | None \<Rightarrow> default_ttl c) now))"
proof (intro conjI impI)
  assume h: "int (length (lru_keys c)) = max_size c \<and> key \<notin> set (lru_keys c)"
  then show "entries (lru_set key v ex now c)
         = tl (entries c @ [(key, new_entry v (case ex of Some t \<Rightarrow> t | None \<Rightarrow> default_ttl c) now)])"
    by (simp add: entries_lru_set_absent Let_def lru_keys_def)
  from h show "lru_keys (lru_set key v ex now c) = tl (lru_keys c @ [key])"
    by (simp add: keys_lru_set_absent)
next
  assume h: "int (length (lru_keys c)) = max_size c \<and> 2 \<le> max_size c \<and> key \<notin> set (lru_keys c)
        \<and> map_of (entries c) k = Some e \<and> \<not> is_expired e t1"
  then have live: "map_of (entries c) k = Some e" "\<not> is_expired e t1" by simp_all
  show "fst (lru_get k t1 c) = Some (entry_value e)" using live by (simp add: lru_get_hit)
  show keys': "lru_keys (snd (lru_get k t1 c)) = filter (\<lambda>x. x \<noteq> k) (lru_keys c) @ [k]"
    using live by (rule keys_after_hit)
  have kin: "k \<in> set (lru_keys c)" using live(1) absent_iff[of "entries c" k] by (simp add: lru_keys_def)
  have len: "Suc (length (filter (\<lambda>x. x \<noteq> k) (lru_keys c))) = length (lru_keys c)"
    using assms kin by (rule length_filter_neq)
  have ne: "filter (\<lambda>x. x \<noteq> k) (lru_keys c) \<noteq> []"
  proof
    assume "filter (\<lambda>x. x \<noteq> k) (lru_keys c) = []"
    then have "length (lru_keys c) = 1" using len by simp
    then show False using h by simp
  qed
  have fresh: "key \<notin> set (lru_keys (snd (lru_get k t1 c)))" using h kin by (auto simp: keys')
  have cap: "max_size (snd (lru_get k t1 c)) = max_size c" using live by (simp add: lru_get_hit)
  have "int (length (lru_keys (snd (lru_get k t1 c)))) + 1 > max_size c"
    using len h by (simp add: keys')
  then have "lru_keys (lru_set key v ex now (snd (lru_get k t1 c)))
      = tl (lru_keys (snd (lru_get k t1 c)) @ [key])"
    using keys_lru_set_absent[OF fresh, of v ex now] cap by simp
  then show "lru_keys (lru_set key v ex now (snd (lru_get k t1 c)))
           = tl (filter (\<lambda>x. x \<noteq> k) (lru_keys c)) @ [k, key]"
    using ne by (simp add: keys')
next
  assume h: "int (length (lru_keys c)) \<le> max_size c \<and> key \<in> set (lru_keys c)"
  then show k: "lru_keys (lru_set key v ex now c) = filter (\<lambda>x. x \<noteq> key) (lru_keys c) @ [key]"
    using assms by (simp add: keys_lru_set_present)
  show "length (lru_keys (lru_set key v ex now c)) = length (lru_keys c)"
    using length_filter_neq[OF assms, of key] h by (simp add: k)
  show "map_of (entries (lru_set key v ex now c)) key
           = Some (new_entry v (case ex of Some t \<Rightarrow> t | None \<Rightarrow> default_ttl c) now)"
    using h assms by (simp add: map_of_set_present)
qed

theorem lru_eviction_order_witness:
  "distinct (lru_keys cache_two)
   \<and> int (length (lru_keys cache_two)) = max_size cache_two \<and> 2 \<le> max_size cache_two
   \<and> lru_keys cache_two = [''a'', ''b'']
   \<and> lru_keys (lru_set ''c'' 3 None 7 cache_two) = [''b'', ''c'']
   \<and> fst (lru_get ''a'' 5 cache_two) = Some 1
   \<and> lru_keys (lru_set ''c'' 3 None 7 (snd (lru_get ''a'' 5 cache_two))) = [''a'', ''c'']
   \<and> lru_keys (lru_set ''a'' 9 None 7 cache_two) = [''b'', ''a'']"
proof -
  have k: "lru_keys cache_two = [''a'', ''b'']" by (simp add: lru_keys_def cache_two_entries)
  have d: "distinct (lru_keys cache_two)" by (simp add: k)
  have m: "map_of (entries cache_two) ''a'' = Some \<lparr>entry_value = 1, created_at = 0, expires_at = 600\<rparr>"
    by (simp add: cache_two_entries)
  have l: "\<not> is_expired \<lparr>entry_value = 1::nat, created_at = 0, expires_at = 600\<rparr> 5"
    by (simp add: is_expired_def)
  show ?thesis
    using lru_eviction_order[OF d, where key = "''c''" and v = 3 and ex = None and now = 7
          and k = "''a''" and e = "\<lparr>entry_value = 1, created_at = 0, expires_at = 600\<rparr>" and ?t1.0 = 5]
      lru_eviction_order[OF d, where key = "''a''" and v = 9 and ex = None and now = 7
          and k = "''a''" and e = "\<lparr>entry_value = 1, created_at = 0, expires_at = 600\<rparr>" and ?t1.0 = 5]
      m l
    by (simp add: k cache_two_max_size)
qed

subsection \<open>Expiry\<close>

lemma expiry_fixed_subset:
  "expiry_fixed key x c \<Longrightarrow> set (entries c') \<subseteq> set (entries c) \<Longrightarrow> expiry_fixed key x c'"
  by (auto simp: expiry_fixed_def)













section \<open>Properties of the fingerprint\<close>

lemma sort_key_same_map:
  assumes "distinct (map fst m1)" "distinct (map fst m2)" "map_of m1 = map_of m2"
  shows "sort_key fst m1 = sort_key fst m2"
proof -
  have s: "set m1 = set m2" using assms by (simp add: map_of_inject_set)
  have d1: "distinct m1" and d2: "distinct m2" using assms(1,2) by (auto simp: distinct_map)
  have m: "mset m1 = mset m2" using s d1 d2 by (simp add: set_eq_iff_mset_eq_distinct)
  have inj: "inj_on fst (set m1)" using assms(1) by (simp add: distinct_map)
  show ?thesis
  proof (rule sort_key_inj_key_eq)
    show "mset m1 = mset (sort_key fst m2)" using m by simp
    show "inj_on fst (set m1)" by (rule inj)
    show "sorted (map fst (sort_key fst m2))" by simp
  qed
qed


text \<open>
  C1: two plans whose fields are equal one by one, with segment mappings that have the same
  contents whatever the order of their entries, have the same serialization and hence the
  same fingerprint, for every hash function; in particular \<^verbatim>\<open>cache_key()\<close> is the same for
  two plans with equal fields.
\<close>

theorem cache_key_order_stable:
  assumes "same_scalar_fields p1 p2"
    and "distinct (map fst m1)" and "distinct (map fst m2)" and "map_of m1 = map_of m2"
  shows "serialize_plan p1 m1 = serialize_plan p2 m2
         \<and> fingerprint H p1 m1 = fingerprint H p2 m2
         \<and> (segments p1 = segments p2 \<longrightarrow> cache_key H p1 = cache_key H p2)"
proof -
  have "sort_key fst m1 = sort_key fst m2" using assms(2-4) by (rule sort_key_same_map)
  then have obj: "json_object m1 = json_object m2" by (simp add: json_object_def)
  have ser: "serialize_plan p1 m = serialize_plan p2 m" for m
    using assms(1) by (simp add: serialize_plan_def same_scalar_fields_def)
  have "serialize_plan p1 m1 = serialize_plan p2 m2"
    using ser[of m1] obj by (simp add: serialize_plan_def)
  moreover have "segments p1 = segments p2 \<Longrightarrow> cache_key H p1 = cache_key H p2"
    using ser by (simp add: cache_key_def fingerprint_def)
  ultimately show ?thesis by (simp add: fingerprint_def)
qed

theorem cache_key_order_stable_witness:
  "[(''grade'', Some (PStr ''P1'')), (''channel'', Some (PStr ''Email'')), (''term'', Some (PInt 60))]
     \<noteq> [(''term'', Some (PInt 60)), (''channel'', Some (PStr ''Email'')), (''grade'', Some (PStr ''P1''))]
   \<and> fingerprint id example_plan
       [(''grade'', Some (PStr ''P1'')), (''channel'', Some (PStr ''Email'')), (''term'', Some (PInt 60))]
     = fingerprint id example_plan
       [(''term'', Some (PInt 60)), (''channel'', Some (PStr ''Email'')), (''grade'', Some (PStr ''P1''))]
   \<and> sort_key fst [(''grade'', Some (PStr ''P1'')), (''channel'', Some (PStr ''Email'')), (''term'', Some (PInt 60))]
     = [(''channel'', Some (PStr ''Email'')), (''grade'', Some (PStr ''P1'')), (''term'', Some (PInt 60))]"
proof -
  have a: "same_scalar_fields example_plan example_plan" by (simp add: same_scalar_fields_def)
  have b: "distinct (map fst [(''grade'', Some (PStr ''P1'')), (''channel'', Some (PStr ''Email'')), (''term'', Some (PInt 60))])"
    by simp
  have c: "distinct (map fst [(''term'', Some (PInt 60)), (''channel'', Some (PStr ''Email'')), (''grade'', Some (PStr ''P1''))])"
    by simp
  have d: "map_of [(''grade'', Some (PStr ''P1'')), (''channel'', Some (PStr ''Email'')), (''term'', Some (PInt 60))]
         = map_of [(''term'', Some (PInt 60)), (''channel'', Some (PStr ''Email'')), (''grade'', Some (PStr ''P1''))]"
    by (auto simp: fun_eq_iff)
  have e: "sort_key fst [(''grade'', Some (PStr ''P1'')), (''channel'', Some (PStr ''Email'')), (''term'', Some (PInt 60))]
     = [(''channel'', Some (PStr ''Email'')), (''grade'', Some (PStr ''P1'')), (''term'', Some (PInt 60))]"
    by code_simp
  show ?thesis using cache_key_order_stable[OF a b c d, of id] e by simp
qed


section \<open>Properties of the orchestration\<close>

lemmas node_defs = router_node_def memory_node_def planner_node_def cache_check_node_def
  guardrail_node_def sql_executor_node_def chart_node_def insights_node_def cache_store_node_def
  should_use_memory_def should_skip_execution_def should_continue_after_guardrail_def

lemma invalid_has_message:
  "\<not> is_valid (validate p []) \<Longrightarrow> truthy_str (error_message (validate p []))"
proof -
  assume a: "\<not> is_valid (validate p [])"
  have v: "validate p [] = validate_segment_filters p"
    by (simp add: validate_three_rules css_empty cms_empty valid_result_def)
  show ?thesis using a unfolding v
    by (cases "first_offending (segments p)")
      (simp_all add: vsf_refines valid_result_def invalid_result_def segment_error_def)
qed

text \<open>The calls that each node adds to the record.\<close>

lemma router_calls: "calls (snd (router_node env sw)) = calls (snd sw) @ [CallClassify]"
  by (cases sw) (simp add: router_node_def log_call_def split: sum.splits)

lemma memory_calls:
  "calls (snd (memory_node env sw)) =
     calls (snd sw) @ (if memory_agent_available env then [CallExplain] else [])"
  by (cases sw) (simp add: memory_node_def log_call_def split: sum.splits)

lemma planner_calls: "calls (snd (planner_node env sw)) = calls (snd sw) @ [CallMakePlan]"
  by (cases sw) (simp add: planner_node_def log_call_def split: sum.splits)

lemma cache_check_calls:
  "calls (snd (cache_check_node env sw)) =
     calls (snd sw) @ (if truthy_str (cache_key_st (fst sw)) then [CallCacheGet (the (cache_key_st (fst sw)))] else [])"
  by (cases sw) (simp add: cache_check_node_def log_call_def Let_def split: option.splits)

lemma guardrail_calls:
  "calls (snd (guardrail_node env sw)) =
     calls (snd sw) @ (if plan (fst sw) = None then [] else [CallValidate []])"
  by (cases sw) (simp add: guardrail_node_def log_call_def Let_def split: option.splits)

lemma sql_calls:
  "calls (snd (sql_executor_node env sw)) =
     calls (snd sw) @ (if plan (fst sw) = None then [] else [CallSqlRun])"
  by (cases sw) (simp add: sql_executor_node_def log_call_def split: option.splits sum.splits)

lemma chart_calls:
  "calls (snd (chart_node env sw)) =
     calls (snd sw) @ (if plan (fst sw) = None \<or> \<not> truthy_rows (df_dict (fst sw)) then [] else [CallChartBuild])"
  by (cases sw) (simp add: chart_node_def log_call_def split: sum.splits)

lemma insights_calls:
  "calls (snd (insights_node env sw)) =
     calls (snd sw) @ (if plan (fst sw) = None \<or> \<not> truthy_rows (df_dict (fst sw)) then [] else [CallSummarize])"
  by (cases sw) (simp add: insights_node_def log_call_def split: sum.splits)

lemma cache_store_state: "fst (cache_store_node env sw) = fst sw"
  by (cases sw) (simp add: cache_store_node_def Let_def split: option.splits insight_value.splits)

lemma cache_store_calls:
  "\<exists>xs. calls (snd (cache_store_node env sw)) = calls (snd sw) @ xs
     \<and> (list_ex is_cache_set xs \<longrightarrow>
          \<not> truthy_str (error (fst sw)) \<and> truthy_rows (df_dict (fst sw))
          \<and> (truthy_chart (chart_spec (fst sw)) \<or> insight (fst sw) \<noteq> None)
          \<and> truthy_str (cache_key_st (fst sw)))"
  by (cases sw) (simp add: cache_store_node_def log_call_def Let_def split: option.splits insight_value.splits)

text \<open>What each node leaves unchanged.\<close>

lemma planner_frame:
  "intent_st (fst (planner_node env sw)) = intent_st (fst sw)"
  "cache_hit (fst (planner_node env sw)) = cache_hit (fst sw)"
  by (cases sw; simp add: planner_node_def split: sum.splits)+

lemma cache_check_frame:
  "intent_st (fst (cache_check_node env sw)) = intent_st (fst sw)"
  "error (fst (cache_check_node env sw)) = error (fst sw)"
  by (cases sw; simp add: cache_check_node_def Let_def split: option.splits)+

lemma guardrail_frame:
  "intent_st (fst (guardrail_node env sw)) = intent_st (fst sw)"
  "cache_hit (fst (guardrail_node env sw)) = cache_hit (fst sw)"
  by (cases sw; simp add: guardrail_node_def Let_def split: option.splits)+

lemma sql_frame:
  "intent_st (fst (sql_executor_node env sw)) = intent_st (fst sw)"
  "cache_hit (fst (sql_executor_node env sw)) = cache_hit (fst sw)"
  by (cases sw; simp add: sql_executor_node_def split: option.splits sum.splits)+

lemma chart_frame:
  "intent_st (fst (chart_node env sw)) = intent_st (fst sw)"
  "cache_hit (fst (chart_node env sw)) = cache_hit (fst sw)"
  "error (fst (chart_node env sw)) = error (fst sw)"
  by (cases sw; simp add: chart_node_def split: sum.splits)+

lemma insights_frame:
  "intent_st (fst (insights_node env sw)) = intent_st (fst sw)"
  "cache_hit (fst (insights_node env sw)) = cache_hit (fst sw)"
  "error (fst (insights_node env sw)) = error (fst sw)"
  by (cases sw; simp add: insights_node_def split: sum.splits)+

text \<open>No node sets the error to the empty text.\<close>

lemma router_error: "error (fst sw) \<noteq> Some [] \<Longrightarrow> error (fst (router_node env sw)) \<noteq> Some []"
  by (cases sw) (simp add: router_node_def split: sum.splits)

lemma planner_error: "error (fst sw) \<noteq> Some [] \<Longrightarrow> error (fst (planner_node env sw)) \<noteq> Some []"
  by (cases sw) (simp add: planner_node_def split: sum.splits)

lemma guardrail_error: "error (fst sw) \<noteq> Some [] \<Longrightarrow> error (fst (guardrail_node env sw)) \<noteq> Some []"
proof (cases sw)
  case (Pair s w)
  assume a: "error (fst sw) \<noteq> Some []"
  show ?thesis
  proof (cases "plan s")
    case None
    then show ?thesis using Pair by (simp add: guardrail_node_def)
  next
    case (Some p)
    show ?thesis
    proof (cases "is_valid (validate p [])")
      case True
      then show ?thesis using Pair Some a by (simp add: guardrail_node_def Let_def)
    next
      case False
      then have "truthy_str (error_message (validate p []))" by (rule invalid_has_message)
      then have "error_message (validate p []) \<noteq> Some []" by auto
      then show ?thesis using Pair Some False by (simp add: guardrail_node_def Let_def)
    qed
  qed
qed

lemma sql_error: "error (fst sw) \<noteq> Some [] \<Longrightarrow> error (fst (sql_executor_node env sw)) \<noteq> Some []"
  by (cases sw) (simp add: sql_executor_node_def split: option.splits sum.splits)

lemma clean_error: "e \<noteq> Some [] \<Longrightarrow> \<not> truthy_str e \<Longrightarrow> e = None"
  by (cases e) auto

lemma no_set_simps:
  "\<not> list_ex is_cache_set (if b then [CallExplain] else [])"
  "\<not> list_ex is_cache_set (if b then [CallCacheGet k] else [])"
  "\<not> list_ex is_cache_set (if b then [] else [CallValidate s])"
  "\<not> list_ex is_cache_set (if b then [] else [CallSqlRun])"
  "\<not> list_ex is_cache_set (if b then [] else [CallChartBuild])"
  "\<not> list_ex is_cache_set (if b then [] else [CallSummarize])"
  by simp_all

lemma example_plan_valid: "validate example_plan [] = valid_result"
  by (simp add: validate_three_rules css_empty cms_empty valid_result_def vsf_refines
      first_offending_def segment_fields_def offending_def example_plan_def no_filters_def)

lemma healthy_run:
  "run_graph healthy_env (initial_graph_state ''q'' None, empty_world)
     = ((initial_graph_state ''q'' None)\<lparr>intent_st := Some ''trend'', plan := Some example_plan,
           cache_key_st := Some ''key1'', cache_hit := False,
           df_dict := Some [[(''week'', PInt 1), (''issued_amnt'', PInt 100)]],
           chart_spec := Some [(''type'', ''line'')],
           insight := Some (InsightObj example_insight)\<rparr>,
        \<lparr>cache = lru_set ''key1''
                   \<lparr>cv_df_dict = Some [[(''week'', PInt 1), (''issued_amnt'', PInt 100)]],
                    cv_chart_spec = Some [(''type'', ''line'')], cv_insight = Some example_insight\<rparr>
                   (Some 600) 1 (new_cache 100 600),
         calls = [CallClassify, CallMakePlan, CallCacheGet ''key1'', CallValidate [], CallSqlRun,
           CallChartBuild, CallSummarize,
           CallCacheSet ''key1'' \<lparr>cv_df_dict = Some [[(''week'', PInt 1), (''issued_amnt'', PInt 100)]],
              cv_chart_spec = Some [(''type'', ''line'')], cv_insight = Some example_insight\<rparr>]\<rparr>)"
  by (simp add: run_graph_def node_defs healthy_env_def example_plan_valid valid_result_def
      initial_graph_state_def empty_world_def new_cache_def lru_get_def log_call_def Let_def
      truthy_rows_def truthy_chart_def)

lemma warm_run:
  "cache_hit (fst (run_graph healthy_env (initial_graph_state ''q'' None, warm_world)))
   \<and> run_calls healthy_env (initial_graph_state ''q'' None) warm_world
       = [CallClassify, CallMakePlan, CallCacheGet ''key1'']"
  by (simp add: warm_world_def healthy_run run_calls_def)
     (simp add: run_graph_def node_defs healthy_env_def
      initial_graph_state_def new_cache_def lru_get_def lru_set_def log_call_def Let_def
      new_entry_def is_expired_def move_to_end_def del_key_def)

lemma explain_run:
  "intent_st (fst (run_graph explain_env (initial_graph_state ''q'' None, empty_world))) = Some ''explain''
   \<and> run_calls explain_env (initial_graph_state ''q'' None) empty_world = [CallClassify, CallExplain]"
  by (simp add: run_calls_def run_graph_def node_defs explain_env_def healthy_env_def
      initial_graph_state_def empty_world_def log_call_def Let_def)

text \<open>
  C4: a run of the graph writes to the cache only if its final state has no error, has at
  least one result row, and has a chart spec or an insight; a run that takes the explain
  path and a run that hits the cache write nothing to the cache.
\<close>

theorem cache_write_discipline:
  "(list_ex is_cache_set (run_calls env st w) \<longrightarrow>
      \<not> truthy_str (error (fst (run_graph env (st, w))))
      \<and> truthy_rows (df_dict (fst (run_graph env (st, w))))
      \<and> (truthy_chart (chart_spec (fst (run_graph env (st, w))))
          \<or> insight (fst (run_graph env (st, w))) \<noteq> None))
   \<and> (list_ex is_cache_set (run_calls env st w) \<and> error st = None \<longrightarrow>
      error (fst (run_graph env (st, w))) = None)
   \<and> (intent_st (fst (run_graph env (st, w))) = Some ''explain'' \<longrightarrow>
      \<not> list_ex is_cache_set (run_calls env st w))
   \<and> (cache_hit (fst (run_graph env (st, w))) \<longrightarrow>
      \<not> list_ex is_cache_set (run_calls env st w))"
proof -
  define s1 where "s1 = router_node env (st, w)"
  define s3 where "s3 = cache_check_node env (planner_node env s1)"
  define s4 where "s4 = guardrail_node env s3"
  define s7 where "s7 = insights_node env (chart_node env (sql_executor_node env s4))"
  have c1: "calls (snd s1) = calls w @ [CallClassify]"
    by (simp add: s1_def router_calls)
  have c3: "\<exists>xs. calls (snd s3) = calls w @ xs \<and> \<not> list_ex is_cache_set xs"
    by (simp add: s3_def cache_check_calls planner_calls c1)
  have c4: "\<exists>xs. calls (snd s4) = calls w @ xs \<and> \<not> list_ex is_cache_set xs"
    using c3 by (auto simp: s4_def guardrail_calls)
  have c7: "\<exists>xs. calls (snd s7) = calls w @ xs \<and> \<not> list_ex is_cache_set xs"
    using c4 by (auto simp: s7_def insights_calls chart_calls sql_calls)
  show ?thesis
  proof (cases "should_use_memory (fst s1) = ''memory''")
    case True
    then have r: "run_graph env (st, w) = memory_node env s1"
      by (simp add: run_graph_def Let_def s1_def)
    have "\<not> list_ex is_cache_set (run_calls env st w)"
      by (simp add: run_calls_def r memory_calls c1)
    then show ?thesis by simp
  next
    case mem: False
    then have i1: "intent_st (fst s1) \<noteq> Some ''explain''"
      by (auto simp: should_use_memory_def split: if_splits)
    have i3: "intent_st (fst s3) = intent_st (fst s1)"
      by (simp add: s3_def cache_check_frame planner_frame)
    show ?thesis
    proof (cases "should_skip_execution (fst s3) = ''end''")
      case True
      then have r: "run_graph env (st, w) = s3"
        using mem by (simp add: run_graph_def Let_def s1_def s3_def)
      have "\<not> list_ex is_cache_set (run_calls env st w)"
        using c3 by (auto simp: run_calls_def r)
      then show ?thesis by simp
    next
      case skip: False
      then have h3: "\<not> cache_hit (fst s3)"
        by (auto simp: should_skip_execution_def split: if_splits)
      show ?thesis
      proof (cases "should_continue_after_guardrail (fst s4) = ''end''")
        case True
        then have r: "run_graph env (st, w) = s4"
          using mem skip by (simp add: run_graph_def Let_def s1_def s3_def s4_def)
        have "\<not> list_ex is_cache_set (run_calls env st w)"
          using c4 by (auto simp: run_calls_def r)
        then show ?thesis by simp
      next
        case False
        then have r: "run_graph env (st, w) = cache_store_node env s7"
          using mem skip by (simp add: run_graph_def Let_def s1_def s3_def s4_def s7_def)
        have f: "fst (run_graph env (st, w)) = fst s7"
          by (simp add: r cache_store_state)
        have hit: "\<not> cache_hit (fst s7)"
          using h3 by (simp add: s7_def s4_def insights_frame chart_frame sql_frame guardrail_frame)
        have int: "intent_st (fst s7) \<noteq> Some ''explain''"
          using i1 i3 by (simp add: s7_def s4_def insights_frame chart_frame sql_frame guardrail_frame)
        obtain xs where xs: "calls (snd s7) = calls w @ xs" "\<not> list_ex is_cache_set xs"
          using c7 by blast
        obtain ys where ys: "calls (snd (cache_store_node env s7)) = calls (snd s7) @ ys"
          "list_ex is_cache_set ys \<longrightarrow>
             \<not> truthy_str (error (fst s7)) \<and> truthy_rows (df_dict (fst s7))
             \<and> (truthy_chart (chart_spec (fst s7)) \<or> insight (fst s7) \<noteq> None)
             \<and> truthy_str (cache_key_st (fst s7))"
          using cache_store_calls[of env s7] by blast
        have rc: "run_calls env st w = xs @ ys"
          by (simp add: run_calls_def r ys(1) xs(1))
        have w1: "list_ex is_cache_set (run_calls env st w) \<Longrightarrow>
             \<not> truthy_str (error (fst s7)) \<and> truthy_rows (df_dict (fst s7))
             \<and> (truthy_chart (chart_spec (fst s7)) \<or> insight (fst s7) \<noteq> None)"
          using ys(2) xs(2) by (simp add: rc)
        have e7: "error st = None \<Longrightarrow> error (fst s7) \<noteq> Some []"
        proof -
          assume "error st = None"
          then have "error (fst (st, w)) \<noteq> Some []" by simp
          then have "error (fst s1) \<noteq> Some []" unfolding s1_def by (rule router_error)
          then have "error (fst (planner_node env s1)) \<noteq> Some []" by (rule planner_error)
          then have "error (fst s3) \<noteq> Some []" by (simp add: s3_def cache_check_frame)
          then have "error (fst s4) \<noteq> Some []" unfolding s4_def by (rule guardrail_error)
          then have "error (fst (sql_executor_node env s4)) \<noteq> Some []" by (rule sql_error)
          then show ?thesis by (simp add: s7_def insights_frame chart_frame)
        qed
        have w2: "list_ex is_cache_set (run_calls env st w) \<Longrightarrow> error st = None \<Longrightarrow>
             error (fst s7) = None"
          using w1 e7 clean_error by blast
        show ?thesis using w1 w2 hit int by (simp add: f)
      qed
    qed
  qed
qed

theorem cache_write_discipline_witness:
  "list_ex is_cache_set (run_calls healthy_env (initial_graph_state ''q'' None) empty_world)
   \<and> error (fst (run_graph healthy_env (initial_graph_state ''q'' None, empty_world))) = None
   \<and> truthy_rows (df_dict (fst (run_graph healthy_env (initial_graph_state ''q'' None, empty_world))))
   \<and> intent_st (fst (run_graph explain_env (initial_graph_state ''q'' None, empty_world))) = Some ''explain''
   \<and> \<not> list_ex is_cache_set (run_calls explain_env (initial_graph_state ''q'' None) empty_world)
   \<and> cache_hit (fst (run_graph healthy_env (initial_graph_state ''q'' None, warm_world)))
   \<and> \<not> list_ex is_cache_set (run_calls healthy_env (initial_graph_state ''q'' None) warm_world)"
proof -
  have a: "list_ex is_cache_set (run_calls healthy_env (initial_graph_state ''q'' None) empty_world)"
    by (simp add: run_calls_def healthy_run) (simp add: empty_world_def)
  have b: "error (initial_graph_state ''q'' None) = None" by (simp add: initial_graph_state_def)
  show ?thesis
    using a b explain_run warm_run
      cache_write_discipline[of healthy_env "initial_graph_state ''q'' None" empty_world]
      cache_write_discipline[of explain_env "initial_graph_state ''q'' None" empty_world]
      cache_write_discipline[of healthy_env "initial_graph_state ''q'' None" warm_world]
    by blast
qed




text \<open>
  C8: with \<^verbatim>\<open>max_retries = 0\<close> the loop body never runs, \<^verbatim>\<open>final_state\<close> stays \<^verbatim>\<open>None\<close>, and
  building the response raises \<^verbatim>\<open>AttributeError\<close>: \<^verbatim>\<open>run_query\<close> does not return a result.
\<close>

theorem run_query_zero_retries_raises:
  "run_query envs q h 0 w = (Inl AttributeError, w)"
  by (simp add: run_query_def retry_loop.simps build_response_def)

text \<open>With at least one attempt allowed, \<^verbatim>\<open>run_query\<close> returns a response.\<close>

lemma retry_loop_returns:
  "attempt < max_retries \<or> final_state \<noteq> None \<Longrightarrow>
   fst (retry_loop envs max_retries attempt initial_state final_state w) \<noteq> None"
proof (induction envs max_retries attempt initial_state final_state w rule: retry_loop.induct)
  case (1 envs max_retries attempt initial_state final_state w)
  show ?case
  proof (cases "attempt < max_retries")
    case False
    then show ?thesis using "1.prems" by (simp add: retry_loop.simps)
  next
    case True
    obtain r w' where inv: "invoke (envs (nat attempt)) initial_state w = (r, w')"
      by (cases "invoke (envs (nat attempt)) initial_state w")
    show ?thesis
    proof (cases r)
      case (Inr fs)
      show ?thesis
      proof (cases "truthy_str (error fs)")
        case False
        then show ?thesis using True inv Inr by (simp add: retry_loop.simps)
      next
        case terr: True
        have "fst (retry_loop envs max_retries (attempt + 1)
                    (if attempt + 1 < max_retries then initial_state\<lparr>error := None\<rparr> else initial_state)
                    (Some fs) w') \<noteq> None"
          by (rule "1.IH"(2)[OF True inv[symmetric] Inr]) (use terr in auto)
        then show ?thesis using True inv Inr terr
          by (subst retry_loop.simps) simp
      qed
    next
      case (Inl e)
      have "fst (retry_loop envs max_retries (attempt + 1) initial_state
               (if attempt + 1 \<ge> max_retries
                then Some (initial_state\<lparr>error := Some (''Query execution failed after ''
                        @ str_of_int max_retries @ '' attempts: '' @ e)\<rparr>)
                else final_state) w') \<noteq> None"
        by (rule "1.IH"(1)[OF True inv[symmetric] Inl]) auto
      then show ?thesis using True inv Inl
        by (subst retry_loop.simps) simp
    qed
  qed
qed

lemma run_query_returns:
  "0 < max_retries \<Longrightarrow> \<exists>r. fst (run_query envs q h max_retries w) = Inr r"
proof -
  assume "0 < max_retries"
  then have "fst (retry_loop envs max_retries 0 (initial_graph_state q h) None w) \<noteq> None"
    by (simp add: retry_loop_returns)
  then show ?thesis
    by (cases "retry_loop envs max_retries 0 (initial_graph_state q h) None w")
      (auto simp: run_query_def build_response_def)
qed

end
